theory Spec2Isabelle
  imports
    Complex_Main
    "HOL-Library.AList"
    "HOL-Library.Char_ord"
    "HOL-Library.List_Lexorder"
begin

section \<open>The voice recorder of main.py\<close>

text \<open>
  The program is one Python module: a Tk window whose record button starts an audio input
  stream on press (\<open>start_record\<close>) and, on release (\<open>stop_record\<close>), normalises the
  recorded samples, writes them as 16-bit PCM, hands the file to the Whisper model
  (\<open>transcribe\<close>), writes the recognised text to a file named after the clock, and relists
  the ten most recent transcript files (\<open>refresh_history\<close>).

  The module keeps its state in globals and Tk widgets. The model gathers them in one record
  and every function takes the state and returns the new one. A function that can raise
  returns the state it leaves behind together with an outcome, because what a Python function
  assigned before it raised stays assigned.
\<close>

subsection \<open>Numbers\<close>

text \<open>
  Samples are \<open>float32\<close> in the program: a value of the model is the real number a
  \<open>float32\<close> holds, or one of the special results \<open>nan\<close> and the two infinities. Each
  division and multiplication of lines 89-90 gives the \<open>float32\<close> nearest to the exact
  result, as IEEE 754 prescribes: 24 significant bits, ties to the even neighbour, gradual
  underflow below \<open>2^-126\<close>, an infinity from \<open>2^128\<close> on.
\<close>

datatype npfloat = Fin real | NaN | PInf | NInf

text \<open>
  The binary exponent of a positive number, kept within the range of \<open>float32\<close>
  (\<open>-126\<close> to \<open>127\<close>): how often it can be halved before it is below \<open>2\<close>, or has to be
  doubled before it reaches \<open>1\<close>.
\<close>

primrec halvings :: "nat \<Rightarrow> real \<Rightarrow> int" where
  "halvings 0 a = 0"
| "halvings (Suc n) a = (if a < 2 then 0 else 1 + halvings n (a / 2))"

primrec doublings :: "nat \<Rightarrow> real \<Rightarrow> int" where
  "doublings 0 a = 0"
| "doublings (Suc n) a = (if 1 \<le> a then 0 else doublings n (2 * a) - 1)"

definition exponent :: "real \<Rightarrow> int" where
  "exponent a = (if 1 \<le> a then halvings 127 a else doublings 126 a)"

text \<open>The distance between neighbouring \<open>float32\<close> values at exponent \<open>e\<close>: \<open>2^(e - 23)\<close>.\<close>

definition ulp :: "int \<Rightarrow> real" where
  "ulp e = (if 23 \<le> e then 2 ^ nat (e - 23) else 1 / 2 ^ nat (23 - e))"

definition round_half_even :: "real \<Rightarrow> int" where
  "round_half_even y =
     (if y - of_int \<lfloor>y\<rfloor> < 1 / 2 then \<lfloor>y\<rfloor>
      else if 1 / 2 < y - of_int \<lfloor>y\<rfloor> then \<lfloor>y\<rfloor> + 1
      else if even \<lfloor>y\<rfloor> then \<lfloor>y\<rfloor>
      else \<lfloor>y\<rfloor> + 1)"

text \<open>The multiple of the \<open>ulp\<close> nearest to \<open>x\<close>, and the \<open>float32\<close> result it stands for.\<close>

definition nearest :: "real \<Rightarrow> real" where
  "nearest x =
     (if x = 0 then 0
      else sgn x *
        (of_int (round_half_even (\<bar>x\<bar> / ulp (exponent \<bar>x\<bar>))) * ulp (exponent \<bar>x\<bar>)))"

definition float32 :: "real \<Rightarrow> npfloat" where
  "float32 x =
     (if 2 ^ 128 \<le> \<bar>nearest x\<bar> then (if 0 < x then PInf else NInf) else Fin (nearest x))"

text \<open>
  \<open>x / m\<close> and \<open>v * c\<close> on NumPy floats. Division by zero does not raise, it gives \<open>nan\<close> or
  an infinity.
\<close>

definition np_div :: "real \<Rightarrow> real \<Rightarrow> npfloat" where
  "np_div x m =
     (if m \<noteq> 0 then float32 (x / m)
      else if x = 0 then NaN
      else if 0 < x then PInf
      else NInf)"

definition np_mul :: "npfloat \<Rightarrow> real \<Rightarrow> npfloat" where
  "np_mul v c =
     (case v of
        Fin x \<Rightarrow> float32 (x * c)
      | NaN \<Rightarrow> NaN
      | PInf \<Rightarrow> (if 0 < c then PInf else if c < 0 then NInf else NaN)
      | NInf \<Rightarrow> (if 0 < c then NInf else if c < 0 then PInf else NaN))"

text \<open>Python's \<open>min(a, b)\<close> returns \<open>b\<close> when \<open>b < a\<close> and \<open>a\<close> otherwise, so a \<open>nan\<close> in front stays.\<close>

definition py_min :: "npfloat \<Rightarrow> real \<Rightarrow> npfloat" where
  "py_min a b =
     (case a of
        Fin x \<Rightarrow> Fin (if b < x then b else x)
      | NaN \<Rightarrow> NaN
      | PInf \<Rightarrow> Fin b
      | NInf \<Rightarrow> NInf)"

text \<open>
  A sample of the written file. \<open>astype(np.int16)\<close> converts as C does: the fraction is cut
  off (towards zero). NumPy defines no result for \<open>nan\<close>, an infinity or a value outside
  the 16-bit range (it warns of an invalid value in the cast and stores whatever the
  platform's conversion gives); the model keeps that case apart as \<open>InvalidCast\<close>.
\<close>

datatype int16 = I16 int | InvalidCast

definition trunc :: "real \<Rightarrow> int" where
  "trunc x = (if 0 \<le> x then \<lfloor>x\<rfloor> else \<lceil>x\<rceil>)"

definition astype_int16 :: "npfloat \<Rightarrow> int16" where
  "astype_int16 v =
     (case v of
        Fin x \<Rightarrow> (if - 32768 \<le> trunc x \<and> trunc x \<le> 32767 then I16 (trunc x) else InvalidCast)
      | NaN \<Rightarrow> InvalidCast
      | PInf \<Rightarrow> InvalidCast
      | NInf \<Rightarrow> InvalidCast)"

subsection \<open>The state\<close>

datatype stream_state = Active | Stopped | Closed

datatype arg = Str string | Flag bool

text \<open>
  The exceptions the modelled lines can raise. \<open>TranscriptionFailed\<close> stands for whatever
  the engine raises; the program gives it no name and does not catch it.
\<close>

datatype exn = TranscriptionFailed | ValueError | AttributeError | OSError

datatype outcome = Returned | Raised exn

text \<open>A reading of \<open>datetime.now()\<close>, as far as the file name's format uses it.\<close>

record datetime =
  year :: nat
  month :: nat
  day :: nat
  hour :: nat
  minute :: nat
  second :: nat

text \<open>A written audio file: its sample rate and its samples.\<close>

type_synonym wav = "nat \<times> int16 list"

text \<open>
  The recognition engine, \<open>model.transcribe(path, **args)\<close>: it reads the file at the
  path (absent: \<open>None\<close>) and returns the text, or raises (\<open>None\<close>).
\<close>

type_synonym engine = "wav option \<Rightarrow> (string \<times> arg) list \<Rightarrow> string option"

text \<open>
  The globals \<open>recording\<close>, \<open>buffer\<close>, \<open>stream\<close> and \<open>level\<close>; the Tk variables \<open>status\<close> and
  \<open>language\<close>; the widgets \<open>canvas\<close> (its rectangles) and \<open>history\<close> (its lines); the texts
  of the windows \<open>show_text\<close> opened; and the world outside: \<open>device\<close>, every audio stream
  opened so far (the handle in \<open>stream\<close> is an index into it), the audio files by path, the
  transcripts directory by file name, and the calls the engine received.
\<close>

record state =
  recording :: bool
  buffer :: "real list list"
  stream :: "nat option"
  level :: npfloat
  status :: string
  language :: string
  canvas :: "(real \<times> real \<times> real \<times> real) list"
  history :: "string list"
  windows :: "string list"
  device :: "stream_state list"
  recordings :: "string \<rightharpoonup> wav"
  transcripts :: "(string \<times> string) list"
  engine_calls :: "(string \<times> (string \<times> arg) list) list"

definition AUDIO_DIR :: string where
  "AUDIO_DIR = ''recordings''"

definition fs :: nat where
  "fs = 16000"

subsection \<open>Audio\<close>

text \<open>
  \<open>start_record\<close> (lines 53-72) has no test of \<open>recording\<close>: it empties the buffer, sets the
  flag and the status, opens a new input stream, keeps its handle in \<open>stream\<close> and starts it.
\<close>

definition start_record :: "state \<Rightarrow> state" where
  "start_record s =
     (let s1 = s\<lparr>buffer := [], recording := True, status := ''Recording...''\<rparr>;
          h = length (device s1);
          s2 = s1\<lparr>device := device s1 @ [Stopped], stream := Some h\<rparr>
      in s2\<lparr>device := (device s2)[h := Active]\<rparr>)"

text \<open>
  The stream's callback (lines 59-64), called by the audio library with each block:
  \<open>np.sqrt(np.mean(indata**2))\<close>, where the mean of an empty block is \<open>nan\<close>. The
  squares, the mean and the root are taken exactly here (their \<open>float32\<close> rounding is
  left out); the product with \<open>300\<close> is rounded.
\<close>

definition rms :: "real list \<Rightarrow> npfloat" where
  "rms indata =
     (if indata = [] then NaN
      else Fin (sqrt (sum_list (map (\<lambda>x. x ^ 2) indata) / real (length indata))))"

definition callback :: "real list \<Rightarrow> state \<Rightarrow> state" where
  "callback indata s =
     (if recording s
      then s\<lparr>buffer := buffer s @ [indata], level := py_min (np_mul (rms indata) 300) 1\<rparr>
      else s)"

text \<open>
  \<open>draw_wave\<close> (lines 124-140): the canvas is cleared and seven bars are drawn; a bar is
  the rectangle \<open>(x, h/2 - bh, x + bw - 6, h/2 + bh)\<close>.
\<close>

definition draw_wave :: "real \<Rightarrow> state \<Rightarrow> state" where
  "draw_wave lvl s =
     (let bars = 7 :: nat;
          w = 260 :: nat;
          h = 50 :: nat;
          bw = w div bars
      in s\<lparr>canvas :=
             map (\<lambda>i. let amp = lvl * (0.4 + real i / real bars);
                          bh = amp * real h;
                          x = real (i * bw + 10)
                      in (x, real h / 2 - bh, x + real bw - 6, real h / 2 + bh))
               [0..<bars]\<rparr>)"

text \<open>
  Lines 88-90 of \<open>stop_record\<close>: the peak \<open>np.max(np.abs(audio))\<close>, the division by it, and
  the scaling to 16 bits.
\<close>

definition peak :: "real list \<Rightarrow> real" where
  "peak audio = Max (set (map abs audio))"

definition peak_normalize :: "real list \<Rightarrow> npfloat list" where
  "peak_normalize audio = map (\<lambda>x. np_div x (peak audio)) audio"

definition to_int16 :: "npfloat list \<Rightarrow> int16 list" where
  "to_int16 audio = map (\<lambda>v. astype_int16 (np_mul v 32767)) audio"

subsection \<open>Transcripts\<close>

text \<open>\<open>strftime("%Y%m%d_%H%M%S.txt")\<close>: zero-padded decimal fields.\<close>

definition digit :: "nat \<Rightarrow> char" where
  "digit d = ''0123456789'' ! (d mod 10)"

definition pad2 :: "nat \<Rightarrow> string" where
  "pad2 n = [digit (n div 10), digit n]"

definition pad4 :: "nat \<Rightarrow> string" where
  "pad4 n = [digit (n div 1000), digit (n div 100), digit (n div 10), digit n]"

definition fname :: "datetime \<Rightarrow> string" where
  "fname now =
     pad4 (year now) @ pad2 (month now) @ pad2 (day now) @ ''_'' @
     pad2 (hour now) @ pad2 (minute now) @ pad2 (second now) @ ''.txt''"

text \<open>
  The readings \<open>datetime.now()\<close> can give: the ranges of Python's \<open>datetime\<close>, with a
  four-digit year (for which \<open>%Y\<close> is the year's four digits on every platform).
\<close>

definition valid :: "datetime \<Rightarrow> bool" where
  "valid now \<longleftrightarrow>
     1000 \<le> year now \<and> year now \<le> 9999 \<and> 1 \<le> month now \<and> month now \<le> 12 \<and>
     1 \<le> day now \<and> day now \<le> 31 \<and> hour now < 24 \<and> minute now < 60 \<and> second now < 60"

text \<open>
  The transcripts directory is an association list from file name to content: \<open>open(..., "w")\<close>
  creates the file or replaces its content, reading looks the name up, and \<open>os.listdir\<close>
  gives every name once.
\<close>

definition listdir :: "(string \<times> string) list \<Rightarrow> string list" where
  "listdir d = remdups (map fst d)"

text \<open>
  \<open>sorted(os.listdir(TRANSCRIPT_DIR), reverse=True)[:n]\<close>; the program takes \<open>n = 10\<close>.
  Names are compared as Python compares strings, character by character.
\<close>

definition recent :: "nat \<Rightarrow> (string \<times> string) list \<Rightarrow> string list" where
  "recent n d = take n (rev (sort (listdir d)))"

definition show_text :: "string \<Rightarrow> state \<Rightarrow> state" where
  "show_text shown s = s\<lparr>windows := windows s @ [shown]\<rparr>"

definition refresh_history :: "state \<Rightarrow> state" where
  "refresh_history s = s\<lparr>history := recent 10 (transcripts s)\<rparr>"

text \<open>
  A string of the model is a text in its UTF-8 encoding, and the content of a file is what
  \<open>f.write\<close> stored (on a platform whose line separator is not the line feed, writing
  replaces each line feed by it and reading undoes that). Line 182 opens the file in text
  mode, so \<open>f.read()\<close> gives the content with universal newlines: each carriage return
  followed by a line feed, and each carriage return alone, is read as one line feed.
\<close>

fun universal_newlines :: "string \<Rightarrow> string" where
  "universal_newlines [] = []"
| "universal_newlines [c] = (if c = CHR 0x0D then [CHR 0x0A] else [c])"
| "universal_newlines (c # d # ds) =
     (if c = CHR 0x0D \<and> d = CHR 0x0A then CHR 0x0A # universal_newlines ds
      else if c = CHR 0x0D then CHR 0x0A # universal_newlines (d # ds)
      else c # universal_newlines (d # ds))"

text \<open>
  \<open>open_history\<close> (lines 177-183); \<open>sel\<close> is the selected line of the list, if any. Opening a
  name that is not in the directory raises, and so does a line beyond the end of the list
  (Tk gives the empty name for it, which is the directory itself).
\<close>

definition open_history :: "nat option \<Rightarrow> state \<Rightarrow> state \<times> outcome" where
  "open_history sel s =
     (case sel of
        None \<Rightarrow> (s, Returned)
      | Some i \<Rightarrow>
          if i < length (history s)
          then (case map_of (transcripts s) (history s ! i) of
                  None \<Rightarrow> (s, Raised OSError)
                | Some content \<Rightarrow> (show_text (universal_newlines content) s, Returned))
          else (s, Raised OSError))"

subsection \<open>Whisper\<close>

text \<open>The keyword arguments of the engine call (lines 103-109).\<close>

definition engine_args :: "string \<Rightarrow> (string \<times> arg) list" where
  "engine_args lang =
     [(''task'', Str ''transcribe''), (''condition_on_previous_text'', Flag False)] @
     (if lang \<noteq> ''auto'' then [(''language'', Str lang)] else [])"

text \<open>
  Lines 100-101 of \<open>transcribe\<close>: the status is set, then \<open>root.update()\<close> lets Tk dispatch
  the events that are pending at that moment. \<open>upd\<close> is what their handlers do to the state:
  the identity when none is pending. (Tk reports an exception of a handler and goes on, so a
  handler gives a state and no outcome.)
\<close>

definition entered :: "(state \<Rightarrow> state) \<Rightarrow> state \<Rightarrow> state" where
  "entered upd s = upd (s\<lparr>status := ''Transcribing...''\<rparr>)"

text \<open>
  \<open>transcribe\<close> (lines 99-121). \<open>now\<close> is the clock reading of line 114; the reading of
  line 113 is never used. An exception of the engine is not caught, so the lines after the
  call are skipped.
\<close>

definition transcribe ::
  "engine \<Rightarrow> (state \<Rightarrow> state) \<Rightarrow> datetime \<Rightarrow> string \<Rightarrow> state \<Rightarrow> state \<times> outcome" where
  "transcribe eng upd now path s =
     (let s1 = entered upd s;
          args = engine_args (language s1);
          s2 = s1\<lparr>engine_calls := engine_calls s1 @ [(path, args)]\<rparr>
      in case eng (recordings s2 path) args of
           None \<Rightarrow> (s2, Raised TranscriptionFailed)
         | Some result \<Rightarrow>
             let s3 = s2\<lparr>transcripts := AList.update (fname now) result (transcripts s2)\<rparr>;
                 s4 = refresh_history (show_text result s3)
             in (s4\<lparr>status := ''Hold to record''\<rparr>, Returned))"

text \<open>
  \<open>stop_record\<close> (lines 74-94). With \<open>stream\<close> still \<open>None\<close> the call \<open>stream.stop()\<close> raises;
  \<open>np.max\<close> of an array without elements raises too.
\<close>

definition stop_record ::
  "engine \<Rightarrow> (state \<Rightarrow> state) \<Rightarrow> datetime \<Rightarrow> state \<Rightarrow> state \<times> outcome" where
  "stop_record eng upd now s =
     (if \<not> recording s then (s, Returned)
      else
        let s1 = s\<lparr>recording := False\<rparr> in
        case stream s1 of
          None \<Rightarrow> (s1, Raised AttributeError)
        | Some h \<Rightarrow>
            let s2 = s1\<lparr>device := (device s1)[h := Stopped]\<rparr>;
                s3 = s2\<lparr>device := (device s2)[h := Closed]\<rparr>;
                s4 = draw_wave 0 s3
            in if buffer s4 = [] then (s4\<lparr>status := ''Ready''\<rparr>, Returned)
               else
                 let audio = concat (buffer s4) in
                 if audio = [] then (s4, Raised ValueError)
                 else
                   let pcm = to_int16 (peak_normalize audio);
                       path = AUDIO_DIR @ ''/record.wav'';
                       s5 = s4\<lparr>recordings := (recordings s4)(path \<mapsto> (fs, pcm))\<rparr>
                   in transcribe eng upd now path s5)"

text \<open>The state at start-up: nothing recorded, no stream, the status of line 215.\<close>

definition initial :: "string \<Rightarrow> (string \<times> string) list \<Rightarrow> state" where
  "initial lang dir =
     refresh_history
       \<lparr>recording = False, buffer = [], stream = None, level = Fin 0,
        status = ''Hold to record'', language = lang, canvas = [], history = [],
        windows = [], device = [], recordings = Map.empty, transcripts = dir,
        engine_calls = []\<rparr>"

subsection \<open>Sessions\<close>

text \<open>
  What happens to the program from outside, one thing after the other: the button is
  pressed, the stream delivers a block, the button is released. A release comes with the
  engine's behaviour and the clock reading of the run it may start; no further event is
  handled inside that run.
\<close>

datatype event = Press | Block "real list" | Release engine datetime

fun step :: "event \<Rightarrow> state \<Rightarrow> state" where
  "step Press s = start_record s"
| "step (Block indata) s = callback indata s"
| "step (Release eng now) s = fst (stop_record eng (\<lambda>s. s) now s)"

section \<open>Basic facts\<close>

lemma halvings_numeral:
  "halvings (numeral k) a = (if a < 2 then 0 else 1 + halvings (pred_numeral k) (a / 2))"
  by (simp add: numeral_eq_Suc)

lemma doublings_numeral:
  "doublings (numeral k) a = (if 1 \<le> a then 0 else doublings (pred_numeral k) (2 * a) - 1)"
  by (simp add: numeral_eq_Suc)

lemmas float32_eval =
  float32_def nearest_def round_half_even_def ulp_def exponent_def halvings_numeral
  doublings_numeral

text \<open>
  The definitions that evaluate a run at a given input: first those of the handlers, then
  those of the numbers (unfolded only once their arguments are known).
\<close>

lemmas run_defs =
  stop_record_def start_record_def callback_def transcribe_def entered_def initial_def
  refresh_history_def show_text_def open_history_def recent_def listdir_def draw_wave_def
  to_int16_def peak_normalize_def peak_def engine_args_def fname_def pad4_def pad2_def
  digit_def AUDIO_DIR_def fs_def Let_def

lemmas number_defs =
  np_div_def np_mul_def py_min_def astype_int16_def trunc_def rms_def float32_eval

subsection \<open>Rounding to \<open>float32\<close>\<close>

text \<open>
  Some values of the definition: a third, the largest finite step into infinity, and two
  numbers below the smallest normal value.
\<close>

lemma float32_values:
  "float32 1 = Fin 1"
  "float32 (1 / 3) = Fin (11184811 / 33554432)"
  "float32 (2 ^ 128) = PInf"
  "float32 (1 / 2 ^ 150) = Fin 0"
  "float32 (3 / 2 ^ 150) = Fin (1 / 2 ^ 148)"
  by (simp_all add: float32_eval)

lemma round_half_even_le: "y \<le> of_int N \<Longrightarrow> round_half_even y \<le> N"
proof -
  assume le: "y \<le> of_int N"
  show ?thesis
  proof (cases "y = of_int N")
    case True
    then show ?thesis by (simp add: round_half_even_def)
  next
    case False
    with le have "y < of_int N" by simp
    then have "\<lfloor>y\<rfloor> < N" by (simp add: floor_less_iff)
    then show ?thesis by (simp add: round_half_even_def)
  qed
qed

lemma round_half_even_nonneg: "0 \<le> y \<Longrightarrow> 0 \<le> round_half_even y"
proof -
  assume "0 \<le> y"
  then have "0 \<le> \<lfloor>y\<rfloor>" by simp
  then show ?thesis by (simp add: round_half_even_def)
qed

lemma doublings_le_0: "doublings n a \<le> 0"
proof (induction n arbitrary: a)
  case 0
  then show ?case by simp
next
  case (Suc n)
  have "doublings n (2 * a) \<le> 0" by (rule Suc.IH)
  then show ?case by simp
qed

lemma halvings_le: "a < 2 ^ Suc m \<Longrightarrow> halvings n a \<le> int m"
proof (induction n arbitrary: a m)
  case 0
  then show ?case by simp
next
  case (Suc n)
  show ?case
  proof (cases "a < 2")
    case True
    then show ?thesis by simp
  next
    case False
    then have a2: "2 \<le> a" by simp
    have "m \<noteq> 0"
    proof
      assume "m = 0"
      with Suc.prems have "a < 2" by simp
      with a2 show False by simp
    qed
    then obtain k where k: "m = Suc k" by (cases m) auto
    from Suc.prems have "a / 2 < 2 ^ Suc k" by (simp add: k)
    then have "halvings n (a / 2) \<le> int k" by (rule Suc.IH)
    with False show ?thesis by (simp add: k)
  qed
qed

lemma exponent_le: "a < 2 ^ Suc m \<Longrightarrow> exponent a \<le> int m"
  using halvings_le [of a m 127] doublings_le_0 [of 126 a]
  by (simp add: exponent_def del: halvings.simps doublings.simps)

lemma ulp_pos: "0 < ulp e"
  by (simp add: ulp_def)

text \<open>
  Below \<open>2^24\<close> every whole number is a multiple of the \<open>ulp\<close>, so rounding cannot carry a
  number across one.
\<close>

lemma scaled_le:
  assumes "0 \<le> a" "a \<le> of_nat c" "e \<le> 23"
  shows "of_int (round_half_even (a / ulp e)) * ulp e \<le> of_nat c"
    and "0 \<le> of_int (round_half_even (a / ulp e)) * ulp e"
proof -
  define k where "k = nat (23 - e)"
  have u: "ulp e = 1 / 2 ^ k" using assms(3) by (auto simp: ulp_def k_def)
  have "a / ulp e = a * 2 ^ k" by (simp add: u)
  also have "\<dots> \<le> of_nat c * 2 ^ k" using assms(2) by simp
  also have "\<dots> = of_int (int c * 2 ^ k)" by simp
  finally have "round_half_even (a / ulp e) \<le> int c * 2 ^ k"
    by (rule round_half_even_le)
  then have "(of_int (round_half_even (a / ulp e)) :: real) \<le> of_int (int c * 2 ^ k)"
    by (simp only: of_int_le_iff)
  then have "of_int (round_half_even (a / ulp e)) * ulp e \<le> of_int (int c * 2 ^ k) * ulp e"
    using ulp_pos [of e] by (simp add: mult_right_mono)
  also have "\<dots> = of_nat c" by (simp add: u)
  finally show "of_int (round_half_even (a / ulp e)) * ulp e \<le> of_nat c" .
  have "0 \<le> a / ulp e" using assms(1) ulp_pos [of e] by simp
  then have "0 \<le> round_half_even (a / ulp e)" by (rule round_half_even_nonneg)
  then show "0 \<le> of_int (round_half_even (a / ulp e)) * ulp e"
    using ulp_pos [of e] by simp
qed

lemma nearest_bound:
  assumes "\<bar>x\<bar> \<le> of_nat c" "c < 2 ^ 24"
  shows "\<bar>nearest x\<bar> \<le> of_nat c"
proof (cases "x = 0")
  case True
  then show ?thesis by (simp add: nearest_def)
next
  case False
  have "\<bar>x\<bar> < 2 ^ Suc 23"
  proof -
    have "(of_nat c :: real) < of_nat (2 ^ 24)" using assms(2) by (simp only: of_nat_less_iff)
    with assms(1) show ?thesis by simp
  qed
  then have e: "exponent \<bar>x\<bar> \<le> 23" using exponent_le [of "\<bar>x\<bar>" 23] by simp
  note b = scaled_le [OF abs_ge_zero assms(1) e]
  define r where
    "r = of_int (round_half_even (\<bar>x\<bar> / ulp (exponent \<bar>x\<bar>))) * ulp (exponent \<bar>x\<bar>)"
  have n: "nearest x = sgn x * r" using False by (simp add: nearest_def r_def)
  have "\<bar>sgn x\<bar> = 1" using False by (simp add: abs_sgn_eq)
  moreover have "\<bar>r\<bar> = r" using b(2) by (simp add: r_def)
  ultimately have "\<bar>nearest x\<bar> = r" by (simp add: n abs_mult)
  with b(1) show ?thesis by (simp add: r_def)
qed

lemma float32_small:
  assumes "\<bar>x\<bar> \<le> of_nat c" "c < 2 ^ 24"
  shows "float32 x = Fin (nearest x)"
proof -
  have "\<bar>nearest x\<bar> \<le> of_nat c" using assms by (rule nearest_bound)
  moreover have "(of_nat c :: real) < of_nat (2 ^ 24)" using assms(2) by (simp only: of_nat_less_iff)
  ultimately have "\<bar>nearest x\<bar> < 2 ^ 24" by simp
  moreover have "(2 :: real) ^ 24 < 2 ^ 128" by simp
  ultimately have "\<not> 2 ^ 128 \<le> \<bar>nearest x\<bar>" by linarith
  then show ?thesis by (simp add: float32_def)
qed

lemma nearest_one: "nearest 1 = 1" "nearest (- 1) = - 1"
  by (simp_all add: float32_eval)

lemma nearest_full_scale: "nearest 32767 = 32767" "nearest (- 32767) = - 32767"
  by (simp_all add: float32_eval)

lemma nearest_nonneg:
  assumes "0 \<le> x"
  shows "0 \<le> nearest x"
proof -
  have "0 \<le> round_half_even (\<bar>x\<bar> / ulp (exponent \<bar>x\<bar>))"
    using ulp_pos [of "exponent \<bar>x\<bar>"] by (intro round_half_even_nonneg) simp
  then have "0 \<le> of_int (round_half_even (\<bar>x\<bar> / ulp (exponent \<bar>x\<bar>))) * ulp (exponent \<bar>x\<bar>)"
    using ulp_pos [of "exponent \<bar>x\<bar>"] by simp
  with assms show ?thesis by (simp add: nearest_def sgn_if)
qed

subsection \<open>The listing\<close>

lemma recent_length: "length (recent n d) \<le> n"
  by (simp add: recent_def)

lemma recent_desc: "sorted_wrt (\<lambda>a b. b < a) (recent n d)"
proof -
  have "distinct (sort (listdir d))" by (simp add: listdir_def)
  then have "sorted_wrt (<) (sort (listdir d))"
    by (simp add: strict_sorted_iff)
  then have "sorted_wrt (\<lambda>a b. b < a) (rev (sort (listdir d)))"
    by (simp add: sorted_wrt_rev)
  then show ?thesis
    unfolding recent_def by (rule sorted_wrt_take)
qed

lemma set_listdir: "set (listdir d) = fst ` set d"
  by (simp add: listdir_def)

lemma set_listdir_update:
  "set (listdir (AList.update k v d)) = insert k (set (listdir d))"
  by (simp add: set_listdir dom_update)

lemma sorted_last_greatest:
  fixes ys :: "'a::linorder list"
  assumes "sorted ys" "k \<in> set ys"
  shows "k \<le> last ys"
proof -
  from assms(2) have ne: "ys \<noteq> []" by auto
  then have ys: "ys = butlast ys @ [last ys]" by simp
  with assms(1) have "sorted (butlast ys @ [last ys])" by simp
  then have "\<forall>y\<in>set (butlast ys). y \<le> last ys" by (simp add: sorted_append)
  moreover from assms(2) ys have "k \<in> set (butlast ys) \<or> k = last ys"
    by (metis Un_iff empty_iff insert_iff list.set(1) list.set(2) set_append)
  ultimately show ?thesis by auto
qed

text \<open>A name that no other name of the directory exceeds heads the listing.\<close>

lemma recent_newest:
  assumes "k \<in> set (listdir d)" "\<forall>x\<in>set (listdir d). x \<le> k" "0 < n"
  shows "recent n d = k # take (n - 1) (rev (butlast (sort (listdir d))))"
proof -
  let ?ys = "sort (listdir d)"
  from assms(1) have k: "k \<in> set ?ys" by simp
  have "length ?ys = length (listdir d)" by simp
  moreover from assms(1) have "length (listdir d) \<noteq> 0" by auto
  ultimately have ne: "?ys \<noteq> []" by (metis length_0_conv)
  have "last ?ys \<in> set ?ys" using ne by (rule last_in_set)
  then have "last ?ys \<le> k" using assms(2) by simp
  moreover have "k \<le> last ?ys" using sorted_sort k by (rule sorted_last_greatest)
  ultimately have "last ?ys = k" by simp
  with ne have "?ys = butlast ?ys @ [k]" by (metis append_butlast_last_id)
  then have "rev ?ys = k # rev (butlast ?ys)"
    by (metis rev.simps(2) rev_rev_ident rev_singleton_conv rev_append append.simps)
  then have "recent n d = take n (k # rev (butlast ?ys))" by (simp only: recent_def)
  with assms(3) show ?thesis by (cases n) simp_all
qed

subsection \<open>The file name\<close>

lemma digit_eq: "digit a = digit b \<longleftrightarrow> a mod 10 = b mod 10"
proof -
  have d: "distinct ''0123456789''" by simp
  have "a mod 10 < length ''0123456789''" "b mod 10 < length ''0123456789''" by simp_all
  with d show ?thesis unfolding digit_def by (simp only: nth_eq_iff_index_eq)
qed

lemma div_mod_10_eq:
  fixes a b :: nat
  assumes "a div 10 = b div 10" "a mod 10 = b mod 10"
  shows "a = b"
proof -
  have "a = a div 10 * 10 + a mod 10" by simp
  also have "\<dots> = b div 10 * 10 + b mod 10" using assms by simp
  also have "\<dots> = b" by simp
  finally show ?thesis .
qed

lemma pad2_eq:
  assumes "a < 100" "b < 100"
  shows "pad2 a = pad2 b \<longleftrightarrow> a = b"
proof
  assume "pad2 a = pad2 b"
  then have d: "a div 10 mod 10 = b div 10 mod 10" "a mod 10 = b mod 10"
    by (simp_all add: pad2_def digit_eq)
  have "a div 10 < 10" "b div 10 < 10" using assms by simp_all
  with d(1) have "a div 10 = b div 10" by simp
  then show "a = b" using d(2) by (rule div_mod_10_eq)
next
  assume "a = b" then show "pad2 a = pad2 b" by simp
qed

lemma pad4_eq:
  assumes "a < 10000" "b < 10000"
  shows "pad4 a = pad4 b \<longleftrightarrow> a = b"
proof
  assume "pad4 a = pad4 b"
  then have d: "a div 1000 mod 10 = b div 1000 mod 10" "a div 100 mod 10 = b div 100 mod 10"
    "a div 10 mod 10 = b div 10 mod 10" "a mod 10 = b mod 10"
    by (simp_all add: pad4_def digit_eq)
  have "a div 1000 < 10" "b div 1000 < 10" using assms by simp_all
  with d(1) have "a div 1000 = b div 1000" by simp
  then have "a div 100 div 10 = b div 100 div 10" by (simp add: div_mult2_eq [symmetric])
  then have "a div 100 = b div 100" using d(2) by (rule div_mod_10_eq)
  then have "a div 10 div 10 = b div 10 div 10" by (simp add: div_mult2_eq [symmetric])
  then have "a div 10 = b div 10" using d(3) by (rule div_mod_10_eq)
  then show "a = b" using d(4) by (rule div_mod_10_eq)
next
  assume "a = b" then show "pad4 a = pad4 b" by simp
qed

lemma pad2_length: "length (pad2 n) = 2"
  by (simp add: pad2_def)

lemma pad4_length: "length (pad4 n) = 4"
  by (simp add: pad4_def)

text \<open>Two clock readings give the same file name exactly when they are the same second.\<close>

lemma fname_eq:
  assumes "valid a" "valid b"
  shows "fname a = fname b \<longleftrightarrow> a = b"
proof
  assume "fname a = fname b"
  then have "pad4 (year a) = pad4 (year b) \<and> pad2 (month a) = pad2 (month b) \<and>
    pad2 (day a) = pad2 (day b) \<and> pad2 (hour a) = pad2 (hour b) \<and>
    pad2 (minute a) = pad2 (minute b) \<and> pad2 (second a) = pad2 (second b)"
    by (simp add: fname_def pad2_length pad4_length)
  moreover have "year a < 10000" "year b < 10000" "month a < 100" "month b < 100"
    "day a < 100" "day b < 100" "hour a < 100" "hour b < 100" "minute a < 100" "minute b < 100"
    "second a < 100" "second b < 100"
    using assms by (simp_all add: valid_def)
  ultimately have "year a = year b \<and> month a = month b \<and> day a = day b \<and> hour a = hour b \<and>
    minute a = minute b \<and> second a = second b"
    by (simp add: pad2_eq pad4_eq)
  then show "a = b" by simp
next
  assume "a = b" then show "fname a = fname b" by simp
qed

subsection \<open>The quantisation\<close>

lemma peak_ge: "x \<in> set audio \<Longrightarrow> \<bar>x\<bar> \<le> peak audio"
  by (simp add: peak_def)

lemma peak_attained: "audio \<noteq> [] \<Longrightarrow> \<exists>x\<in>set audio. \<bar>x\<bar> = peak audio"
proof -
  assume "audio \<noteq> []"
  then have "Max (set (map abs audio)) \<in> set (map abs audio)"
    by (intro Max_in) auto
  then show ?thesis by (auto simp: peak_def)
qed

lemma peak_pos: "x \<in> set audio \<Longrightarrow> x \<noteq> 0 \<Longrightarrow> 0 < peak audio"
  using peak_ge [of x audio] by linarith

lemma peak_silence: "audio \<noteq> [] \<Longrightarrow> \<forall>x\<in>set audio. x = 0 \<Longrightarrow> peak audio = 0"
  using peak_attained [of audio] by auto

lemma trunc_of_int: "trunc (of_int k) = k"
  by (simp add: trunc_def)

lemma trunc_abs_le: "\<bar>x\<bar> \<le> of_int k \<Longrightarrow> \<bar>trunc x\<bar> \<le> k"
  unfolding trunc_def by (auto simp: abs_if floor_le_iff ceiling_le_iff le_floor_iff; linarith)

lemma quotient_bound:
  assumes "x \<in> set audio" "0 < peak audio"
  shows "\<bar>x / peak audio\<bar> \<le> 1"
proof -
  have "\<bar>x\<bar> \<le> peak audio" using assms(1) by (rule peak_ge)
  with assms(2) show ?thesis by simp
qed

lemma quotient_float32:
  assumes "x \<in> set audio" "0 < peak audio"
  shows "np_div x (peak audio) = Fin (nearest (x / peak audio))"
    and "\<bar>nearest (x / peak audio)\<bar> \<le> 1"
proof -
  have b: "\<bar>x / peak audio\<bar> \<le> of_nat 1" using quotient_bound [OF assms] by simp
  have c: "(1 :: nat) < 2 ^ 24" by simp
  show "np_div x (peak audio) = Fin (nearest (x / peak audio))"
    using float32_small [OF b c] assms(2) by (simp add: np_div_def)
  show "\<bar>nearest (x / peak audio)\<bar> \<le> 1"
    using nearest_bound [OF b c] by simp
qed

lemma product_float32:
  assumes "\<bar>q\<bar> \<le> 1"
  shows "np_mul (Fin q) 32767 = Fin (nearest (q * 32767))"
    and "\<bar>nearest (q * 32767)\<bar> \<le> 32767"
proof -
  have b: "\<bar>q * 32767\<bar> \<le> of_nat 32767" using assms by (simp add: abs_mult)
  have c: "(32767 :: nat) < 2 ^ 24" by simp
  show "np_mul (Fin q) 32767 = Fin (nearest (q * 32767))"
    using float32_small [OF b c] by (simp add: np_mul_def)
  show "\<bar>nearest (q * 32767)\<bar> \<le> 32767"
    using nearest_bound [OF b c] by simp
qed

lemma quantize_bound:
  assumes "x \<in> set audio" "0 < peak audio"
  shows "\<bar>trunc (nearest (nearest (x / peak audio) * 32767))\<bar> \<le> 32767"
proof -
  have "\<bar>nearest (nearest (x / peak audio) * 32767)\<bar> \<le> of_int 32767"
    using product_float32(2) [OF quotient_float32(2) [OF assms]] by simp
  then show ?thesis by (rule trunc_abs_le)
qed

lemma quantize_sample:
  assumes "x \<in> set audio" "0 < peak audio"
  shows "astype_int16 (np_mul (np_div x (peak audio)) 32767) =
           I16 (trunc (nearest (nearest (x / peak audio) * 32767)))"
proof -
  have "np_mul (np_div x (peak audio)) 32767 =
      Fin (nearest (nearest (x / peak audio) * 32767))"
    by (simp only: quotient_float32(1) [OF assms]
        product_float32(1) [OF quotient_float32(2) [OF assms]])
  then show ?thesis
    using quantize_bound [OF assms] by (auto simp: astype_int16_def)
qed

lemma quantize_map:
  assumes "0 < peak audio"
  shows "to_int16 (peak_normalize audio) =
           map I16 (map (\<lambda>x. trunc (nearest (nearest (x / peak audio) * 32767))) audio)"
  using assms by (simp add: to_int16_def peak_normalize_def quantize_sample)

lemma quantize_peak_sample:
  assumes "0 < peak audio" "\<bar>x\<bar> = peak audio"
  shows "\<bar>trunc (nearest (nearest (x / peak audio) * 32767))\<bar> = 32767"
proof (cases "0 \<le> x")
  case True
  then have "x / peak audio = 1" using assms by simp
  then have "nearest (nearest (x / peak audio) * 32767) = of_int 32767"
    by (simp add: nearest_one nearest_full_scale)
  then show ?thesis by (simp only: trunc_of_int)
next
  case False
  then have "x / peak audio = - 1" using assms by (simp add: abs_if field_simps)
  then have "nearest (nearest (x / peak audio) * 32767) = of_int (- 32767)"
    by (simp add: nearest_one nearest_full_scale)
  then show ?thesis by (simp only: trunc_of_int)
qed

lemma quantize_Max:
  assumes "audio \<noteq> []" "0 < peak audio"
  shows "Max (set (map abs
           (map (\<lambda>x. trunc (nearest (nearest (x / peak audio) * 32767))) audio))) = 32767"
proof (rule Max_eqI)
  show "finite (set (map abs
           (map (\<lambda>x. trunc (nearest (nearest (x / peak audio) * 32767))) audio)))"
    by simp
next
  fix y
  assume "y \<in> set (map abs
           (map (\<lambda>x. trunc (nearest (nearest (x / peak audio) * 32767))) audio))"
  then obtain x where "x \<in> set audio"
    "y = \<bar>trunc (nearest (nearest (x / peak audio) * 32767))\<bar>" by auto
  then show "y \<le> 32767" using quantize_bound [OF _ assms(2)] by simp
next
  obtain x where x: "x \<in> set audio" "\<bar>x\<bar> = peak audio"
    using peak_attained [OF assms(1)] by blast
  then have "\<bar>trunc (nearest (nearest (x / peak audio) * 32767))\<bar> = 32767"
    using quantize_peak_sample [OF assms(2)] by simp
  with x(1) show "32767 \<in> set (map abs
           (map (\<lambda>x. trunc (nearest (nearest (x / peak audio) * 32767))) audio))"
    by force
qed

text \<open>
  The rounding of the product shows in the file: the exact product of the second sample is
  just below \<open>30750\<close>, the \<open>float32\<close> product is \<open>30750\<close>.
\<close>

lemma product_rounds_up:
  "to_int16 (peak_normalize [1, 492015 / 524288]) = [I16 32767, I16 30750]"
  "\<lfloor>492015 / 524288 * 32767 :: real\<rfloor> = 30749"
  by (simp_all add: to_int16_def peak_normalize_def peak_def) (simp_all add: number_defs)

text \<open>With a peak of zero every sample is \<open>0 / 0\<close>.\<close>

lemma silence_is_nan:
  assumes "peak audio = 0" "\<forall>x\<in>set audio. x = 0"
  shows "peak_normalize audio = map (\<lambda>x. NaN) audio"
    and "to_int16 (peak_normalize audio) = map (\<lambda>x. InvalidCast) audio"
  using assms
  by (simp_all add: peak_normalize_def to_int16_def np_div_def np_mul_def astype_int16_def)

subsection \<open>The two handlers and the run\<close>

lemma entered_id: "entered (\<lambda>s. s) s = s\<lparr>status := ''Transcribing...''\<rparr>"
  by (simp add: entered_def)


lemma transcribe_returns:
  assumes "eng (recordings (entered upd s) path) (engine_args (language (entered upd s))) =
             Some result"
  shows "transcribe eng upd now path s =
           ((entered upd s)\<lparr>engine_calls := engine_calls (entered upd s) @
               [(path, engine_args (language (entered upd s)))],
              transcripts := AList.update (fname now) result (transcripts (entered upd s)),
              windows := windows (entered upd s) @ [result],
              history := recent 10 (AList.update (fname now) result (transcripts (entered upd s))),
              status := ''Hold to record''\<rparr>,
            Returned)"
  using assms by (simp add: transcribe_def Let_def refresh_history_def show_text_def)

lemma transcribe_outcome:
  "snd (transcribe eng upd now path s) =
     (case eng (recordings (entered upd s) path) (engine_args (language (entered upd s))) of
        None \<Rightarrow> Raised TranscriptionFailed
      | Some result \<Rightarrow> Returned)"
  by (simp add: transcribe_def Let_def split: option.split)

lemma transcribe_calls:
  "engine_calls (fst (transcribe eng upd now path s)) =
     engine_calls (entered upd s) @ [(path, engine_args (language (entered upd s)))]"
  by (simp add: transcribe_def Let_def refresh_history_def show_text_def split: option.split)

lemma transcribe_recordings:
  "recordings (fst (transcribe eng (\<lambda>s. s) now path s)) = recordings s"
  by (simp add: transcribe_def entered_def Let_def refresh_history_def show_text_def
      split: option.split)

text \<open>
  Between the two calls of one button hold: with samples in the buffer, \<open>stop_record\<close>
  is \<open>transcribe\<close> on the state in which the stream is closed and the file is written.
\<close>

lemma stop_record_handoff:
  assumes "recording s" "stream s = Some h" "concat (buffer s) \<noteq> []"
  shows "stop_record eng upd now s =
           transcribe eng upd now ''recordings/record.wav''
             ((draw_wave 0 (s\<lparr>recording := False, device := (device s)[h := Closed]\<rparr>))
                \<lparr>recordings := (recordings s)(''recordings/record.wav'' \<mapsto>
                    (16000, to_int16 (peak_normalize (concat (buffer s)))))\<rparr>)"
proof -
  from assms(3) have "buffer s \<noteq> []" by auto
  with assms show ?thesis
    by (auto simp: stop_record_def Let_def draw_wave_def AUDIO_DIR_def fs_def)
qed

lemma stop_record_artifact:
  assumes "recording s" "stream s = Some h" "concat (buffer s) \<noteq> []"
  shows "recordings (fst (stop_record eng (\<lambda>s. s) now s)) ''recordings/record.wav'' =
           Some (16000, to_int16 (peak_normalize (concat (buffer s))))"
  by (simp add: stop_record_handoff [OF assms] transcribe_recordings)

lemma stop_record_not_recording:
  "\<not> recording (fst (stop_record eng (\<lambda>s. s) now s))"
  by (simp add: stop_record_def transcribe_def entered_def Let_def refresh_history_def
      show_text_def draw_wave_def split: option.split)

text \<open>
  Whatever happens, a session that is recording holds the handle of a stream that is open
  and started.
\<close>

lemma step_keeps_stream_active:
  assumes "recording s \<longrightarrow>
      (\<exists>h. stream s = Some h \<and> h < length (device s) \<and> device s ! h = Active)"
  shows "recording (step e s) \<longrightarrow>
         (\<exists>h. stream (step e s) = Some h \<and> h < length (device (step e s)) \<and>
              device (step e s) ! h = Active)"
proof (cases e)
  case Press
  then show ?thesis by (simp add: start_record_def Let_def)
next
  case (Block indata)
  then show ?thesis using assms by (simp add: callback_def)
next
  case (Release eng now)
  then show ?thesis by (simp add: stop_record_not_recording)
qed

lemma fold_keeps_stream_active:
  assumes "recording s \<longrightarrow>
      (\<exists>h. stream s = Some h \<and> h < length (device s) \<and> device s ! h = Active)"
  shows "recording (fold step es s) \<longrightarrow>
         (\<exists>h. stream (fold step es s) = Some h \<and> h < length (device (fold step es s)) \<and>
              device (fold step es s) ! h = Active)"
  using assms
proof (induction es arbitrary: s)
  case Nil
  then show ?case by simp
next
  case (Cons e es)
  show ?case
    using Cons.IH [OF step_keeps_stream_active [OF Cons.prems]] by simp
qed

text \<open>
  A failed run leaves the status line as it set it on entry: line 121 is skipped. Nothing
  reads the status, so this shows in the window only.
\<close>

lemma failed_run_leaves_status:
  assumes "eng (recordings s path) (engine_args (language s)) = None"
  shows "status (fst (transcribe eng (\<lambda>s. s) now path s)) = ''Transcribing...''"
  using assms by (simp add: transcribe_def entered_def Let_def)

text \<open>A text without a carriage return is read as it was written.\<close>

lemma universal_newlines_id: "CHR 0x0D \<notin> set cs \<Longrightarrow> universal_newlines cs = cs"
  by (induction cs rule: universal_newlines.induct) auto

text \<open>At level \<open>0\<close> every bar has its top and its bottom at the middle line.\<close>

lemma draw_wave_zero:
  "canvas (draw_wave 0 s) =
     map (\<lambda>i. (real (i * 37 + 10), 25, real (i * 37 + 10) + 31, 25)) [0..<7]"
  by (simp add: draw_wave_def Let_def)

section \<open>The claims\<close>

subsection \<open>C1: a run while a run is in flight\<close>

text \<open>
  Claim C1 says that a run invoked while a job is in flight fails with \<open>Busy\<close>, so that at
  most one job is in flight. The program has no such test and no such error: \<open>transcribe\<close>
  writes the status line on entry and on normal return, nothing ever reads it, and the only
  thing that decides how a call ends is the engine. What holds instead, in every state and
  whatever the pending handlers do: the call reaches the engine, returns when the engine
  returns a text and raises the engine's failure otherwise.
\<close>

theorem run_is_never_rejected:
  "snd (transcribe eng upd now path s) =
     (case eng (recordings (entered upd s) path) (engine_args (language (entered upd s))) of
        None \<Rightarrow> Raised TranscriptionFailed
      | Some result \<Rightarrow> Returned) \<and>
   engine_calls (fst (transcribe eng upd now path s)) =
     engine_calls (entered upd s) @ [(path, engine_args (language (entered upd s)))]"
  by (simp add: transcribe_outcome transcribe_calls)

text \<open>An instance: a call in a state whose status already reads \<open>Transcribing...\<close>.\<close>

theorem run_is_never_rejected_witness:
  "snd (transcribe (\<lambda>w a. Some ''hello'') (\<lambda>s. s)
         \<lparr>year = 2024, month = 1, day = 2, hour = 3, minute = 4, second = 5\<rparr>
         ''recordings/record.wav''
         ((initial ''auto'' [])\<lparr>status := ''Transcribing...''\<rparr>)) = Returned \<and>
   engine_calls (fst (transcribe (\<lambda>w a. Some ''hello'') (\<lambda>s. s)
         \<lparr>year = 2024, month = 1, day = 2, hour = 3, minute = 4, second = 5\<rparr>
         ''recordings/record.wav''
         ((initial ''auto'' [])\<lparr>status := ''Transcribing...''\<rparr>))) =
     [(''recordings/record.wav'',
       [(''task'', Str ''transcribe''), (''condition_on_previous_text'', Flag False)])]"
  using run_is_never_rejected [of "\<lambda>w a. Some ''hello''" "\<lambda>s. s"
      "\<lparr>year = 2024, month = 1, day = 2, hour = 3, minute = 4, second = 5\<rparr>"
      "''recordings/record.wav''" "(initial ''auto'' [])\<lparr>status := ''Transcribing...''\<rparr>"]
  by (simp add: entered_def initial_def refresh_history_def engine_args_def)

text \<open>
  The claim fails where a run starts inside a run. The button is released after one block
  of audio, so \<open>stop_record\<close> calls \<open>transcribe\<close>. While that call is in \<open>root.update()\<close>,
  Tk dispatches a press, the stream delivers a block, and Tk dispatches the release: the
  handler calls \<open>transcribe\<close> again, at 03:04:05. The inner run is not refused. It calls the
  engine and writes its transcript; then the outer run calls the engine and writes its own,
  at 03:04:06. The engine received two jobs and the directory holds two records, the inner
  run's first.
\<close>

theorem run_inside_run_counterexample:
  "engine_calls (fst (stop_record (\<lambda>w a. Some ''hello'')
       (\<lambda>s. fst (stop_record (\<lambda>w a. Some ''hello'') (\<lambda>s. s)
                   \<lparr>year = 2024, month = 1, day = 2, hour = 3, minute = 4, second = 5\<rparr>
                   (callback [1] (start_record s))))
       \<lparr>year = 2024, month = 1, day = 2, hour = 3, minute = 4, second = 6\<rparr>
       (callback [1] (start_record (initial ''auto'' []))))) =
     [(''recordings/record.wav'',
       [(''task'', Str ''transcribe''), (''condition_on_previous_text'', Flag False)]),
      (''recordings/record.wav'',
       [(''task'', Str ''transcribe''), (''condition_on_previous_text'', Flag False)])] \<and>
   transcripts (fst (stop_record (\<lambda>w a. Some ''hello'')
       (\<lambda>s. fst (stop_record (\<lambda>w a. Some ''hello'') (\<lambda>s. s)
                   \<lparr>year = 2024, month = 1, day = 2, hour = 3, minute = 4, second = 5\<rparr>
                   (callback [1] (start_record s))))
       \<lparr>year = 2024, month = 1, day = 2, hour = 3, minute = 4, second = 6\<rparr>
       (callback [1] (start_record (initial ''auto'' []))))) =
     [(''20240102_030405.txt'', ''hello''), (''20240102_030406.txt'', ''hello'')] \<and>
   snd (stop_record (\<lambda>w a. Some ''hello'')
       (\<lambda>s. fst (stop_record (\<lambda>w a. Some ''hello'') (\<lambda>s. s)
                   \<lparr>year = 2024, month = 1, day = 2, hour = 3, minute = 4, second = 5\<rparr>
                   (callback [1] (start_record s))))
       \<lparr>year = 2024, month = 1, day = 2, hour = 3, minute = 4, second = 6\<rparr>
       (callback [1] (start_record (initial ''auto'' [])))) = Returned"
  by (simp add: run_defs)

subsection \<open>C2: a recording of pure silence\<close>

text \<open>
  Claim C2 says that for a recording whose peak is zero the normalisation is skipped, so that
  nothing is divided by zero, and silence is written. \<open>stop_record\<close> tests only whether the
  buffer is empty; line 89 divides by the peak whatever it is. With two samples of silence
  the peak is \<open>0\<close>, each sample becomes \<open>0 / 0\<close>, that is \<open>nan\<close>, and the file is written from
  the conversion of \<open>nan\<close> to 16 bits, for which NumPy defines no value.
\<close>

theorem silence_divides_by_zero:
  "peak [0, 0] = 0 \<and>
   peak_normalize (concat [[0, 0]]) = [NaN, NaN] \<and>
   recordings (fst (stop_record (\<lambda>w a. Some ''hello'') (\<lambda>s. s)
       \<lparr>year = 2024, month = 1, day = 2, hour = 3, minute = 4, second = 5\<rparr>
       (callback [0, 0] (start_record (initial ''auto'' []))))) ''recordings/record.wav'' =
     Some (16000, [InvalidCast, InvalidCast])"
  by (simp add: run_defs) (simp_all add: number_defs)

subsection \<open>C3: two saves in the same second\<close>

text \<open>
  Claim C3 says that of two saves in the same second the second never overwrites the first,
  so that both texts can be read afterwards. The name of the file is the clock reading to
  the second and the file is opened for writing, which replaces its content. Two runs at
  03:04:05: after the first the directory holds \<open>first\<close>, after the second the same one file
  holds \<open>second\<close>, and \<open>first\<close> is gone.
\<close>

theorem same_second_overwrites_counterexample:
  "transcripts (fst (transcribe (\<lambda>w a. Some ''second'') (\<lambda>s. s)
       \<lparr>year = 2024, month = 1, day = 2, hour = 3, minute = 4, second = 5\<rparr>
       ''recordings/record.wav''
       (fst (transcribe (\<lambda>w a. Some ''first'') (\<lambda>s. s)
          \<lparr>year = 2024, month = 1, day = 2, hour = 3, minute = 4, second = 5\<rparr>
          ''recordings/record.wav'' (initial ''auto'' []))))) =
     [(''20240102_030405.txt'', ''second'')] \<and>
   transcripts (fst (transcribe (\<lambda>w a. Some ''first'') (\<lambda>s. s)
          \<lparr>year = 2024, month = 1, day = 2, hour = 3, minute = 4, second = 5\<rparr>
          ''recordings/record.wav'' (initial ''auto'' []))) =
     [(''20240102_030405.txt'', ''first'')]"
  by (simp add: run_defs)

text \<open>
  Claim C3 as amended: after two runs, one after the other, the text of the second can be
  read under its name. If both read the clock in the same second, the directory is what the
  second run alone would have left: the first text has been replaced. If they read it in
  different seconds, the names differ and the first text can still be read under its name.
\<close>

theorem second_save_same_name_replaces:
  assumes "valid now1" "valid now2"
    and "eng1 (recordings s path1) (engine_args (language s)) = Some text1"
    and "eng2 (recordings s path2) (engine_args (language s)) = Some text2"
  shows "map_of (transcripts (fst (transcribe eng2 (\<lambda>s. s) now2 path2
                   (fst (transcribe eng1 (\<lambda>s. s) now1 path1 s))))) (fname now2) = Some text2 \<and>
         (if now1 = now2
          then transcripts (fst (transcribe eng2 (\<lambda>s. s) now2 path2
                   (fst (transcribe eng1 (\<lambda>s. s) now1 path1 s)))) =
                 AList.update (fname now2) text2 (transcripts s)
          else map_of (transcripts (fst (transcribe eng2 (\<lambda>s. s) now2 path2
                   (fst (transcribe eng1 (\<lambda>s. s) now1 path1 s))))) (fname now1) = Some text1)"
proof -
  define s1 where "s1 = fst (transcribe eng1 (\<lambda>s. s) now1 path1 s)"
  have e1: "eng1 (recordings (entered (\<lambda>s. s) s) path1)
              (engine_args (language (entered (\<lambda>s. s) s))) = Some text1"
    using assms(3) by (simp add: entered_id)
  have s1: "transcripts s1 = AList.update (fname now1) text1 (transcripts s)"
    "recordings s1 = recordings s" "language s1 = language s"
    unfolding s1_def
    by (simp_all add: transcribe_returns [where eng = eng1 and upd = "\<lambda>s. s", OF e1] entered_id)
  have e2: "eng2 (recordings (entered (\<lambda>s. s) s1) path2)
              (engine_args (language (entered (\<lambda>s. s) s1))) = Some text2"
    using assms(4) by (simp add: entered_id s1)
  have r2: "transcripts (fst (transcribe eng2 (\<lambda>s. s) now2 path2 s1)) =
      AList.update (fname now2) text2 (AList.update (fname now1) text1 (transcripts s))"
    by (simp add: transcribe_returns [where eng = eng2 and upd = "\<lambda>s. s", OF e2] entered_id s1)
  have ne: "now1 \<noteq> now2 \<Longrightarrow> fname now1 \<noteq> fname now2"
    using fname_eq [OF assms(1,2)] by simp
  show ?thesis
    unfolding s1_def [symmetric] using ne by (simp add: r2 update_conv' update_last)
qed

text \<open>Instances: the two runs of the counterexample, and two runs one second apart.\<close>

theorem second_save_same_name_replaces_witness:
  "transcripts (fst (transcribe (\<lambda>w a. Some ''second'') (\<lambda>s. s)
       \<lparr>year = 2024, month = 1, day = 2, hour = 3, minute = 4, second = 5\<rparr>
       ''recordings/record.wav''
       (fst (transcribe (\<lambda>w a. Some ''first'') (\<lambda>s. s)
          \<lparr>year = 2024, month = 1, day = 2, hour = 3, minute = 4, second = 5\<rparr>
          ''recordings/record.wav'' (initial ''auto'' []))))) =
     AList.update (fname \<lparr>year = 2024, month = 1, day = 2, hour = 3, minute = 4, second = 5\<rparr>)
       ''second'' (transcripts (initial ''auto'' [])) \<and>
   map_of (transcripts (fst (transcribe (\<lambda>w a. Some ''second'') (\<lambda>s. s)
       \<lparr>year = 2024, month = 1, day = 2, hour = 3, minute = 4, second = 6\<rparr>
       ''recordings/record.wav''
       (fst (transcribe (\<lambda>w a. Some ''first'') (\<lambda>s. s)
          \<lparr>year = 2024, month = 1, day = 2, hour = 3, minute = 4, second = 5\<rparr>
          ''recordings/record.wav'' (initial ''auto'' []))))))
       (fname \<lparr>year = 2024, month = 1, day = 2, hour = 3, minute = 4, second = 5\<rparr>) =
     Some ''first''"
proof -
  have v5: "valid \<lparr>year = 2024, month = 1, day = 2, hour = 3, minute = 4, second = 5\<rparr>"
    and v6: "valid \<lparr>year = 2024, month = 1, day = 2, hour = 3, minute = 4, second = 6\<rparr>"
    by (simp_all add: valid_def)
  have e1: "(\<lambda>w a. Some ''first'') (recordings (initial ''auto'' []) ''recordings/record.wav'')
              (engine_args (language (initial ''auto'' []))) = Some ''first''"
    and e2: "(\<lambda>w a. Some ''second'') (recordings (initial ''auto'' []) ''recordings/record.wav'')
              (engine_args (language (initial ''auto'' []))) = Some ''second''"
    by simp_all
  show ?thesis
    using
      second_save_same_name_replaces [where s = "initial ''auto'' []"
        and ?path1.0 = "''recordings/record.wav''" and ?path2.0 = "''recordings/record.wav''",
        OF v5 v5 e1 e2]
      second_save_same_name_replaces [where s = "initial ''auto'' []"
        and ?path1.0 = "''recordings/record.wav''" and ?path2.0 = "''recordings/record.wav''",
        OF v5 v6 e1 e2]
    by simp
qed

subsection \<open>C4: the scaling to 16 bits\<close>

text \<open>
  Claim C4 says that for a recording with a sample that is not zero the peak of the written
  file is 32767, each scaled sample being rounded to the nearest integer and clamped to the
  16-bit range. The peak is right; the rounding is not what the program does. Line 90
  converts with \<open>astype(np.int16)\<close>, which cuts the fraction off, and there is no clamping
  step. For the samples \<open>1\<close> and \<open>1/4\<close> the second scaled sample is \<open>8191.75\<close>, which
  \<open>float32\<close> holds exactly: the file holds \<open>8191\<close>, the nearest integer is \<open>8192\<close>.
\<close>

theorem quantisation_truncates_counterexample:
  "recordings (fst (stop_record (\<lambda>w a. Some ''hello'') (\<lambda>s. s)
       \<lparr>year = 2024, month = 1, day = 2, hour = 3, minute = 4, second = 5\<rparr>
       (callback [1, 1 / 4] (start_record (initial ''auto'' []))))) ''recordings/record.wav'' =
     Some (16000, [I16 32767, I16 8191]) \<and>
   np_mul (np_div (1 / 4) (peak [1, 1 / 4])) 32767 = Fin (32767 / 4) \<and>
   round (32767 / 4 :: real) = 8192"
proof -
  let ?s = "callback [1, 1 / 4] (start_record (initial ''auto'' []))"
  have r: "recording ?s" and h: "stream ?s = Some 0"
    and b: "concat (buffer ?s) = [1, 1 / 4]"
    by (simp_all add: callback_def start_record_def initial_def refresh_history_def Let_def)
  have ne: "concat (buffer ?s) \<noteq> []" unfolding b by simp
  have q: "to_int16 (peak_normalize [1, 1 / 4]) = [I16 32767, I16 8191]"
    by (simp add: to_int16_def peak_normalize_def peak_def) (simp_all add: number_defs)
  have f: "recordings (fst (stop_record (\<lambda>w a. Some ''hello'') (\<lambda>s. s)
       \<lparr>year = 2024, month = 1, day = 2, hour = 3, minute = 4, second = 5\<rparr> ?s))
       ''recordings/record.wav'' = Some (16000, [I16 32767, I16 8191])"
    using stop_record_artifact [OF r h ne, of "\<lambda>w a. Some ''hello''"
        "\<lparr>year = 2024, month = 1, day = 2, hour = 3, minute = 4, second = 5\<rparr>"]
    unfolding b q .
  have m: "np_mul (np_div (1 / 4) (peak [1, 1 / 4])) 32767 = Fin (32767 / 4)"
    by (simp add: peak_def np_div_def np_mul_def float32_eval)
  have n: "round (32767 / 4 :: real) = 8192" by (simp add: round_def)
  from f m n show ?thesis by simp
qed

text \<open>
  Claim C4 as amended: when the button is released on a recording with a sample that is not
  zero (and no event is handled during the run that follows), the written file holds, for
  each sample \<open>x\<close> in order, the \<open>float32\<close> product of 32767 and the \<open>float32\<close> quotient
  \<open>x / peak\<close>, with its fraction cut off; every one of them is a 16-bit value, and the
  largest magnitude among them is exactly 32767.
\<close>

theorem artifact_peak_is_full_scale:
  assumes "recording s" "stream s = Some h" "\<exists>x\<in>set (concat (buffer s)). x \<noteq> 0"
  shows "recordings (fst (stop_record eng (\<lambda>s. s) now s)) ''recordings/record.wav'' =
           Some (16000, map I16
             (map (\<lambda>x. trunc (nearest (nearest (x / peak (concat (buffer s))) * 32767)))
               (concat (buffer s)))) \<and>
         Max (set (map abs
             (map (\<lambda>x. trunc (nearest (nearest (x / peak (concat (buffer s))) * 32767)))
               (concat (buffer s))))) =
           32767"
proof -
  from assms(3) obtain x where x: "x \<in> set (concat (buffer s))" "x \<noteq> 0" by blast
  from x(1) have ne: "concat (buffer s) \<noteq> []" by (metis empty_iff empty_set)
  have pos: "0 < peak (concat (buffer s))" using x by (rule peak_pos)
  show ?thesis
  proof (rule conjI)
    show "recordings (fst (stop_record eng (\<lambda>s. s) now s)) ''recordings/record.wav'' =
           Some (16000, map I16
             (map (\<lambda>x. trunc (nearest (nearest (x / peak (concat (buffer s))) * 32767)))
               (concat (buffer s))))"
      using stop_record_artifact [OF assms(1,2) ne, of eng now]
      by (simp only: quantize_map [OF pos])
  next
    show "Max (set (map abs
             (map (\<lambda>x. trunc (nearest (nearest (x / peak (concat (buffer s))) * 32767)))
               (concat (buffer s))))) =
           32767"
      using ne pos by (rule quantize_Max)
  qed
qed

text \<open>
  Instances: one block with the samples \<open>1/2\<close> and \<open>-1/4\<close>, and one where the product is
  rounded before the fraction is cut off.
\<close>

theorem artifact_peak_is_full_scale_witness:
  "recordings (fst (stop_record (\<lambda>w a. Some ''hello'') (\<lambda>s. s)
       \<lparr>year = 2024, month = 1, day = 2, hour = 3, minute = 4, second = 5\<rparr>
       (callback [1 / 2, - 1 / 4] (start_record (initial ''auto'' []))))) ''recordings/record.wav'' =
     Some (16000, [I16 32767, I16 (- 16383)]) \<and>
   Max (set (map abs [32767, - 16383 :: int])) = 32767 \<and>
   recordings (fst (stop_record (\<lambda>w a. Some ''hello'') (\<lambda>s. s)
       \<lparr>year = 2024, month = 1, day = 2, hour = 3, minute = 4, second = 5\<rparr>
       (callback [1, 492015 / 524288] (start_record (initial ''auto'' [])))))
       ''recordings/record.wav'' =
     Some (16000, [I16 32767, I16 30750])"
proof -
  let ?s = "callback [1 / 2, - 1 / 4] (start_record (initial ''auto'' []))"
  let ?s' = "callback [1, 492015 / 524288] (start_record (initial ''auto'' []))"
  have r: "recording ?s" and h: "stream ?s = Some 0"
    and b: "concat (buffer ?s) = [1 / 2, - 1 / 4]"
    by (simp_all add: callback_def start_record_def initial_def refresh_history_def Let_def)
  have r': "recording ?s'" and h': "stream ?s' = Some 0"
    and b': "concat (buffer ?s') = [1, 492015 / 524288]"
    by (simp_all add: callback_def start_record_def initial_def refresh_history_def Let_def)
  have x: "\<exists>x\<in>set (concat (buffer ?s)). x \<noteq> 0" unfolding b by simp
  have x': "\<exists>x\<in>set (concat (buffer ?s')). x \<noteq> 0" unfolding b' by simp
  have p: "peak [1 / 2, - 1 / 4] = 1 / 2" by (simp add: peak_def)
  have p': "peak [1, 492015 / 524288] = 1" by (simp add: peak_def)
  have q: "map (\<lambda>x. trunc (nearest (nearest (x / (1 / 2)) * 32767))) [1 / 2, - 1 / 4] =
      [32767, - 16383]"
    by (simp add: trunc_def float32_eval)
  have q': "map (\<lambda>x. trunc (nearest (nearest (x / 1) * 32767))) [1, 492015 / 524288] =
      [32767, 30750]"
    by (simp add: trunc_def float32_eval)
  have 1: "recordings (fst (stop_record (\<lambda>w a. Some ''hello'') (\<lambda>s. s)
       \<lparr>year = 2024, month = 1, day = 2, hour = 3, minute = 4, second = 5\<rparr> ?s))
       ''recordings/record.wav'' = Some (16000, [I16 32767, I16 (- 16383)]) \<and>
     Max (set (map abs [32767, - 16383 :: int])) = 32767"
    using artifact_peak_is_full_scale [OF r h x, of "\<lambda>w a. Some ''hello''"
        "\<lparr>year = 2024, month = 1, day = 2, hour = 3, minute = 4, second = 5\<rparr>"]
    unfolding b p q by simp
  have 2: "recordings (fst (stop_record (\<lambda>w a. Some ''hello'') (\<lambda>s. s)
       \<lparr>year = 2024, month = 1, day = 2, hour = 3, minute = 4, second = 5\<rparr> ?s'))
       ''recordings/record.wav'' = Some (16000, [I16 32767, I16 30750])"
    using artifact_peak_is_full_scale [OF r' h' x', of "\<lambda>w a. Some ''hello''"
        "\<lparr>year = 2024, month = 1, day = 2, hour = 3, minute = 4, second = 5\<rparr>"]
    unfolding b' p' q' by simp
  from 1 2 show ?thesis by simp
qed

subsection \<open>C5: save, list, read\<close>

text \<open>
  Claim C5 says that for every text a save, a listing of length one and a read of the listed
  name give back exactly the text. In the program the save is the tail of \<open>transcribe\<close>,
  the listing is \<open>refresh_history\<close>, whose first line is what a listing of length one
  returns, and the read is \<open>open_history\<close> on that line. The claim fails in two ways. The
  file is read in text mode: the text \<open>a\<close>, carriage return, \<open>b\<close> is saved as it is and read
  back as \<open>a\<close>, line feed, \<open>b\<close>. And the listing is ordered by name: with a file \<open>zzz.txt\<close>
  in the directory the first name listed after the save is \<open>zzz.txt\<close>, and the read shows
  that file's content.
\<close>

theorem save_list_read_counterexample:
  "windows (fst (open_history (Some 0)
       (fst (transcribe (\<lambda>w a. Some [CHR ''a'', CHR 0x0D, CHR ''b'']) (\<lambda>s. s)
          \<lparr>year = 2024, month = 1, day = 2, hour = 3, minute = 4, second = 5\<rparr>
          ''recordings/record.wav'' (initial ''auto'' []))))) =
     [[CHR ''a'', CHR 0x0D, CHR ''b''], [CHR ''a'', CHR 0x0A, CHR ''b'']] \<and>
   recent 1 (transcripts (fst (transcribe (\<lambda>w a. Some ''hello'') (\<lambda>s. s)
       \<lparr>year = 2024, month = 1, day = 2, hour = 3, minute = 4, second = 5\<rparr>
       ''recordings/record.wav'' (initial ''auto'' [(''zzz.txt'', ''z'')])))) = [''zzz.txt''] \<and>
   windows (fst (open_history (Some 0)
       (fst (transcribe (\<lambda>w a. Some ''hello'') (\<lambda>s. s)
          \<lparr>year = 2024, month = 1, day = 2, hour = 3, minute = 4, second = 5\<rparr>
          ''recordings/record.wav'' (initial ''auto'' [(''zzz.txt'', ''z'')]))))) =
     [''hello'', ''z'']"
  by (simp add: run_defs)

text \<open>
  Claim C5 as amended: for every text without a carriage return, saved when no name in the
  directory is greater than the new record's name (as is the case when the names were given
  by a clock that does not run backwards): the listing of length one is the new name, the
  first line of the history is the new name, the record holds the text, and opening that
  line shows exactly the text.
\<close>

theorem save_list_read_round_trip:
  assumes eng: "eng (recordings (entered upd s) path) (engine_args (language (entered upd s))) =
                  Some result"
    and newest: "\<forall>k\<in>set (listdir (transcripts (entered upd s))). k \<le> fname now"
    and no_cr: "CHR 0x0D \<notin> set result"
  shows "recent 1 (transcripts (fst (transcribe eng upd now path s))) = [fname now] \<and>
         history (fst (transcribe eng upd now path s)) ! 0 = fname now \<and>
         map_of (transcripts (fst (transcribe eng upd now path s))) (fname now) = Some result \<and>
         open_history (Some 0) (fst (transcribe eng upd now path s)) =
           (show_text result (fst (transcribe eng upd now path s)), Returned)"
proof -
  let ?d = "AList.update (fname now) result (transcripts (entered upd s))"
  have k: "fname now \<in> set (listdir ?d)" by (simp add: set_listdir_update)
  have le: "\<forall>x\<in>set (listdir ?d). x \<le> fname now"
    using newest by (simp add: set_listdir_update)
  have r1: "recent 1 ?d = [fname now]"
    using recent_newest [OF k le, of 1] by simp
  have r10: "recent 10 ?d ! 0 = fname now" "0 < length (recent 10 ?d)"
    using recent_newest [OF k le, of 10] by simp_all
  have m: "map_of ?d (fname now) = Some result" by (simp add: update_conv')
  have u: "universal_newlines result = result"
    using no_cr by (rule universal_newlines_id)
  show ?thesis
    using r1 r10 m u
    by (simp add: transcribe_returns [where eng = eng and result = result, OF eng]
        open_history_def show_text_def)
qed

text \<open>
  An instance: a directory with one older record, and a text of two lines, \<open>hello\<close>
  and \<open>world\<close>.
\<close>

theorem save_list_read_round_trip_witness:
  "recent 1 (transcripts (fst (transcribe (\<lambda>w a. Some (''hello'' @ [CHR 0x0A] @ ''world''))
       (\<lambda>s. s)
       \<lparr>year = 2024, month = 1, day = 2, hour = 3, minute = 4, second = 5\<rparr>
       ''recordings/record.wav''
       (initial ''auto'' [(''20231231_235959.txt'', ''old'')])))) = [''20240102_030405.txt''] \<and>
   fst (open_history (Some 0)
       (fst (transcribe (\<lambda>w a. Some (''hello'' @ [CHR 0x0A] @ ''world'')) (\<lambda>s. s)
       \<lparr>year = 2024, month = 1, day = 2, hour = 3, minute = 4, second = 5\<rparr>
       ''recordings/record.wav''
       (initial ''auto'' [(''20231231_235959.txt'', ''old'')])))) =
     show_text (''hello'' @ [CHR 0x0A] @ ''world'')
       (fst (transcribe (\<lambda>w a. Some (''hello'' @ [CHR 0x0A] @ ''world'')) (\<lambda>s. s)
       \<lparr>year = 2024, month = 1, day = 2, hour = 3, minute = 4, second = 5\<rparr>
       ''recordings/record.wav''
       (initial ''auto'' [(''20231231_235959.txt'', ''old'')])))"
proof -
  let ?s = "initial ''auto'' [(''20231231_235959.txt'', ''old'')]"
  let ?now = "\<lparr>year = 2024, month = 1, day = 2, hour = 3, minute = 4, second = 5\<rparr>"
  have n: "fname ?now = ''20240102_030405.txt''"
    by (simp add: fname_def pad4_def pad2_def digit_def)
  have e: "(\<lambda>w a. Some (''hello'' @ [CHR 0x0A] @ ''world''))
             (recordings (entered (\<lambda>s. s) ?s) ''recordings/record.wav'')
             (engine_args (language (entered (\<lambda>s. s) ?s))) =
           Some (''hello'' @ [CHR 0x0A] @ ''world'')"
    by simp
  have le: "\<forall>k\<in>set (listdir (transcripts (entered (\<lambda>s. s) ?s))). k \<le> fname ?now"
    unfolding n by (simp add: entered_def initial_def refresh_history_def listdir_def)
  have c: "CHR 0x0D \<notin> set (''hello'' @ [CHR 0x0A] @ ''world'')"
    by simp
  show ?thesis
    using save_list_read_round_trip [where eng = "\<lambda>w a. Some (''hello'' @ [CHR 0x0A] @ ''world'')"
        and upd = "\<lambda>s. s" and s = ?s and path = "''recordings/record.wav''", OF e le c]
    unfolding n by simp
qed

subsection \<open>C6: the history listing\<close>

text \<open>
  Claim C6: whatever the transcripts directory holds, the history that \<open>refresh_history\<close>
  lists has at most ten names, and they are strictly descending.
\<close>

theorem history_at_most_ten_descending:
  "length (history (refresh_history s)) \<le> 10 \<and>
   sorted_wrt (\<lambda>a b. b < a) (history (refresh_history s))"
  by (simp add: refresh_history_def recent_length recent_desc)

subsection \<open>C7: a second start\<close>

text \<open>
  Claim C7 says that \<open>start_record\<close> on a session that is recording is refused or does
  nothing, so that a second stream is never opened. \<open>stop_record\<close> begins with a test of
  \<open>recording\<close>; \<open>start_record\<close> has none. Two presses without a release in between: after the
  first one stream is open, after the second two are, and \<open>stream\<close> holds the second handle
  only. The release then closes the second stream and the first stays open for good.
\<close>

theorem second_start_opens_second_stream:
  "device (start_record (initial ''auto'' [])) = [Active] \<and>
   stream (start_record (initial ''auto'' [])) = Some 0 \<and>
   device (start_record (start_record (initial ''auto'' []))) = [Active, Active] \<and>
   stream (start_record (start_record (initial ''auto'' []))) = Some 1 \<and>
   device (fst (stop_record (\<lambda>w a. Some ''hello'') (\<lambda>s. s)
       \<lparr>year = 2024, month = 1, day = 2, hour = 3, minute = 4, second = 5\<rparr>
       (start_record (start_record (initial ''auto'' []))))) = [Active, Closed]"
  by (simp add: run_defs)

subsection \<open>C8: a run whose engine fails\<close>



subsection \<open>C9: a recording without a block\<close>

text \<open>
  Claim C9 says that a recording stopped before any block arrived writes no audio file, runs
  no transcription and leaves the status as it was before the start. The last part fails:
  \<open>stop_record\<close> sets the status to \<open>Ready\<close> on this path, and before the first press the
  status is \<open>Hold to record\<close>.
\<close>

theorem empty_recording_status_counterexample:
  "status (initial ''auto'' []) = ''Hold to record'' \<and>
   status (fst (stop_record (\<lambda>w a. Some ''hello'') (\<lambda>s. s)
       \<lparr>year = 2024, month = 1, day = 2, hour = 3, minute = 4, second = 5\<rparr>
       (start_record (initial ''auto'' [])))) = ''Ready''"
  by (simp add: run_defs)

text \<open>
  Claim C9 as amended: a start followed by a stop with no block in between returns
  normally, leaves the audio files, the transcripts directory, the history and the shown
  windows as they were before the start, calls the engine not at all, and sets the status to
  \<open>Ready\<close> (so the status is as before the start only when it was \<open>Ready\<close> then).
\<close>

theorem empty_recording_sets_ready:
  "snd (stop_record eng upd now (start_record s)) = Returned \<and>
   recordings (fst (stop_record eng upd now (start_record s))) = recordings s \<and>
   transcripts (fst (stop_record eng upd now (start_record s))) = transcripts s \<and>
   engine_calls (fst (stop_record eng upd now (start_record s))) = engine_calls s \<and>
   windows (fst (stop_record eng upd now (start_record s))) = windows s \<and>
   history (fst (stop_record eng upd now (start_record s))) = history s \<and>
   status (fst (stop_record eng upd now (start_record s))) = ''Ready''"
  by (simp add: stop_record_def start_record_def Let_def draw_wave_def)

text \<open>An instance where the status was \<open>Ready\<close> before the start and is the same after.\<close>

theorem empty_recording_sets_ready_witness:
  "snd (stop_record (\<lambda>w a. Some ''hello'') (\<lambda>s. s)
       \<lparr>year = 2024, month = 1, day = 2, hour = 3, minute = 4, second = 5\<rparr>
       (start_record ((initial ''auto'' [])\<lparr>status := ''Ready''\<rparr>))) = Returned \<and>
   engine_calls (fst (stop_record (\<lambda>w a. Some ''hello'') (\<lambda>s. s)
       \<lparr>year = 2024, month = 1, day = 2, hour = 3, minute = 4, second = 5\<rparr>
       (start_record ((initial ''auto'' [])\<lparr>status := ''Ready''\<rparr>)))) = [] \<and>
   status (fst (stop_record (\<lambda>w a. Some ''hello'') (\<lambda>s. s)
       \<lparr>year = 2024, month = 1, day = 2, hour = 3, minute = 4, second = 5\<rparr>
       (start_record ((initial ''auto'' [])\<lparr>status := ''Ready''\<rparr>)))) =
     status ((initial ''auto'' [])\<lparr>status := ''Ready''\<rparr>)"
  using empty_recording_sets_ready [of "\<lambda>w a. Some ''hello''" "\<lambda>s. s"
      "\<lparr>year = 2024, month = 1, day = 2, hour = 3, minute = 4, second = 5\<rparr>"
      "(initial ''auto'' [])\<lparr>status := ''Ready''\<rparr>"]
  by (simp add: initial_def refresh_history_def)

subsection \<open>C10: the stop\<close>

text \<open>
  Claim C10 says that after a stop of a recording session the session is idle, its stream is
  halted and released, and the live level is \<open>0\<close>. \<open>stop_record\<close> draws the meter at \<open>0\<close>
  but does not assign \<open>level\<close>: after one block of full amplitude the level is \<open>1\<close>, and it
  is still \<open>1\<close> after the stop.
\<close>

theorem stop_keeps_level_counterexample:
  "recording (callback [1] (start_record (initial ''auto'' []))) \<and>
   level (callback [1] (start_record (initial ''auto'' []))) = Fin 1 \<and>
   level (fst (stop_record (\<lambda>w a. Some ''hello'') (\<lambda>s. s)
       \<lparr>year = 2024, month = 1, day = 2, hour = 3, minute = 4, second = 5\<rparr>
       (callback [1] (start_record (initial ''auto'' []))))) = Fin 1"
  by (simp add: run_defs) (simp_all add: number_defs)

text \<open>
  Claim C10 as amended: when \<open>stop_record\<close> is called on a session that is recording and
  holds the handle of its stream, and no event is handled during the run that may follow,
  then afterwards, however the call ends, the session is not recording, that stream is
  closed and no other stream has changed, the meter shows seven bars of height zero, and
  \<open>level\<close> is what it was.
\<close>

theorem stop_record_halts_stream:
  assumes "recording s" "stream s = Some h"
  shows "\<not> recording (fst (stop_record eng (\<lambda>s. s) now s)) \<and>
         device (fst (stop_record eng (\<lambda>s. s) now s)) = (device s)[h := Closed] \<and>
         canvas (fst (stop_record eng (\<lambda>s. s) now s)) =
           map (\<lambda>i. (real (i * 37 + 10), 25, real (i * 37 + 10) + 31, 25)) [0..<7] \<and>
         level (fst (stop_record eng (\<lambda>s. s) now s)) = level s"
  using assms
  by (simp add: stop_record_def transcribe_def entered_def Let_def refresh_history_def
      show_text_def draw_wave_def split: option.split)

text \<open>An instance: the recording of the counterexample.\<close>

theorem stop_record_halts_stream_witness:
  "\<not> recording (fst (stop_record (\<lambda>w a. Some ''hello'') (\<lambda>s. s)
       \<lparr>year = 2024, month = 1, day = 2, hour = 3, minute = 4, second = 5\<rparr>
       (callback [1] (start_record (initial ''auto'' []))))) \<and>
   device (fst (stop_record (\<lambda>w a. Some ''hello'') (\<lambda>s. s)
       \<lparr>year = 2024, month = 1, day = 2, hour = 3, minute = 4, second = 5\<rparr>
       (callback [1] (start_record (initial ''auto'' []))))) = [Closed] \<and>
   level (fst (stop_record (\<lambda>w a. Some ''hello'') (\<lambda>s. s)
       \<lparr>year = 2024, month = 1, day = 2, hour = 3, minute = 4, second = 5\<rparr>
       (callback [1] (start_record (initial ''auto'' []))))) = Fin 1"
proof -
  let ?s = "callback [1] (start_record (initial ''auto'' []))"
  have r: "recording ?s" and h: "stream ?s = Some 0" and d: "device ?s = [Active]"
    and l: "level ?s = Fin 1"
    by (simp_all add: callback_def start_record_def initial_def refresh_history_def Let_def
        rms_def np_mul_def py_min_def float32_eval)
  show ?thesis
    using stop_record_halts_stream [OF r h, of "\<lambda>w a. Some ''hello''"
        "\<lparr>year = 2024, month = 1, day = 2, hour = 3, minute = 4, second = 5\<rparr>"]
    unfolding d l by simp
qed

section \<open>Further properties\<close>

text \<open>
  \<open>stop_record\<close> on a session that is not recording does nothing: the state is the
  same and the call returns.
\<close>

theorem stop_when_idle_is_noop:
  assumes "\<not> recording s"
  shows "stop_record eng upd now s = (s, Returned)"
  using assms by (simp add: stop_record_def)

theorem stop_when_idle_is_noop_witness:
  "stop_record (\<lambda>w a. Some ''hello'') (\<lambda>s. s)
     \<lparr>year = 2024, month = 1, day = 2, hour = 3, minute = 4, second = 5\<rparr>
     (initial ''auto'' []) = (initial ''auto'' [], Returned)"
proof -
  have n: "\<not> recording (initial ''auto'' [])"
    by (simp add: initial_def refresh_history_def)
  show ?thesis
    using stop_when_idle_is_noop [OF n] by simp
qed

text \<open>
  From the start of the program, after any sequence of presses, blocks and releases, a
  session that is recording holds the handle of a stream of the device that is started.
\<close>

theorem recording_session_has_active_stream:
  assumes "recording (fold step es (initial lang dir))"
  shows "\<exists>h. stream (fold step es (initial lang dir)) = Some h \<and>
             h < length (device (fold step es (initial lang dir))) \<and>
             device (fold step es (initial lang dir)) ! h = Active"
proof -
  have "recording (initial lang dir) \<longrightarrow>
      (\<exists>h. stream (initial lang dir) = Some h \<and> h < length (device (initial lang dir)) \<and>
           device (initial lang dir) ! h = Active)"
    by (simp add: initial_def refresh_history_def)
  from fold_keeps_stream_active [OF this] assms show ?thesis by blast
qed

theorem recording_session_has_active_stream_witness:
  "recording (fold step [Press, Block [1]] (initial ''auto'' [])) \<and>
   stream (fold step [Press, Block [1]] (initial ''auto'' [])) = Some 0 \<and>
   device (fold step [Press, Block [1]] (initial ''auto'' [])) = [Active]"
proof -
  have r: "recording (fold step [Press, Block [1]] (initial ''auto'' []))"
    by (simp add: callback_def start_record_def initial_def refresh_history_def Let_def)
  show ?thesis
    using r recording_session_has_active_stream [OF r]
    by (simp add: callback_def start_record_def initial_def refresh_history_def Let_def)
qed

text \<open>
  While the session is recording, a block that is not empty sets the level to a number
  between \<open>0\<close> and \<open>1\<close>.
\<close>

theorem level_between_zero_and_one:
  assumes "recording s" "indata \<noteq> []"
  shows "\<exists>l. level (callback indata s) = Fin l \<and> 0 \<le> l \<and> l \<le> 1"
proof -
  define y where "y = sqrt (sum_list (map (\<lambda>x. x ^ 2) indata) / real (length indata)) * 300"
  have "0 \<le> sum_list (map (\<lambda>x. x ^ 2) indata)"
    by (rule sum_list_nonneg) auto
  then have y: "0 \<le> y" by (simp add: y_def)
  then have n: "0 \<le> nearest y" by (rule nearest_nonneg)
  have l: "level (callback indata s) = py_min (float32 y) 1"
    using assms by (simp add: callback_def rms_def np_mul_def y_def)
  show ?thesis
  proof (cases "2 ^ 128 \<le> \<bar>nearest y\<bar>")
    case True
    then have "nearest y \<noteq> 0" by auto
    then have "y \<noteq> 0" by (auto simp: nearest_def)
    with y have "0 < y" by simp
    with True have "float32 y = PInf" by (simp add: float32_def)
    then show ?thesis by (simp add: l py_min_def)
  next
    case False
    then have "float32 y = Fin (nearest y)" by (simp add: float32_def)
    then show ?thesis using n by (simp add: l py_min_def)
  qed
qed

theorem level_between_zero_and_one_witness:
  "level (callback [1] (start_record (initial ''auto'' []))) = Fin 1 \<and> (0 :: real) \<le> 1"
proof -
  have r: "recording (start_record (initial ''auto'' []))"
    by (simp add: start_record_def Let_def)
  have n: "[1 :: real] \<noteq> []" by simp
  show ?thesis
    using level_between_zero_and_one [OF r n]
    by (simp add: callback_def rms_def np_mul_def py_min_def float32_eval r)
qed

text \<open>
  The engine is always called with the task \<open>transcribe\<close> and without conditioning on
  previous text; the language is passed exactly when the selected language is not \<open>auto\<close>.
\<close>

theorem engine_arguments:
  "map_of (engine_args lang) ''task'' = Some (Str ''transcribe'') \<and>
   map_of (engine_args lang) ''condition_on_previous_text'' = Some (Flag False) \<and>
   map_of (engine_args lang) ''language'' = (if lang = ''auto'' then None else Some (Str lang)) \<and>
   distinct (map fst (engine_args lang))"
  by (simp add: engine_args_def)

text \<open>Clock readings of different seconds give different file names.\<close>

theorem different_seconds_different_names:
  assumes "valid a" "valid b" "a \<noteq> b"
  shows "fname a \<noteq> fname b"
  using fname_eq [OF assms(1,2)] assms(3) by simp

theorem different_seconds_different_names_witness:
  "fname \<lparr>year = 2024, month = 1, day = 2, hour = 3, minute = 4, second = 5\<rparr> \<noteq>
   fname \<lparr>year = 2024, month = 1, day = 2, hour = 3, minute = 4, second = 6\<rparr>"
proof -
  have v5: "valid \<lparr>year = 2024, month = 1, day = 2, hour = 3, minute = 4, second = 5\<rparr>"
    and v6: "valid \<lparr>year = 2024, month = 1, day = 2, hour = 3, minute = 4, second = 6\<rparr>"
    by (simp_all add: valid_def)
  have ne: "\<lparr>year = 2024, month = 1, day = 2, hour = 3, minute = 4, second = 5\<rparr> \<noteq>
    \<lparr>year = 2024, month = 1, day = 2, hour = 3, minute = 4, second = (6 :: nat)\<rparr>"
    by simp
  show ?thesis
    using different_seconds_different_names [OF v5 v6 ne] .
qed

end
